theory Spec2Isabelle
  imports Complex_Main "HOL-Library.Char_ord" "HOL-Library.List_Lexorder" "HOL-Library.Multiset"
begin

section \<open>Data model\<close>

text \<open>
  The backend of the equipment visualiser (\<^verbatim>\<open>backend/equipment/views.py\<close>,
  \<^verbatim>\<open>models.py\<close>, \<^verbatim>\<open>serializers.py\<close>) is embedded as functions on an explicit store.

  A Python float is a finite value or NaN. Every finite double is a rational number, so
  a finite value is a \<^typ>\<open>rat\<close>; sums and quotients are taken exactly, the rounding of
  double-precision arithmetic and the infinities are left out.
\<close>

datatype pyfloat = Fin rat | NaN

text \<open>
  A cell of the DataFrame that \<^verbatim>\<open>pd.read_csv\<close> returns: a number (an empty cell is the
  float NaN) or a piece of text.
\<close>

datatype cell = Flt pyfloat | Str string

record dataframe =
  columns :: "string list"
  rows :: "cell list list"

text \<open>An exception is observed through \<^verbatim>\<open>str(e)\<close> only; the constructor is its class.\<close>

datatype exception =
    ParserError string
  | TypeError string
  | ValueError string
  | IntegrityError string

fun str_exception :: "exception \<Rightarrow> string" where
  "str_exception (ParserError m) = m"
| "str_exception (TypeError m) = m"
| "str_exception (ValueError m) = m"
| "str_exception (IntegrityError m) = m"

text \<open>
  The uploaded file \<^verbatim>\<open>request.FILES['file']\<close>: its name, and what \<^verbatim>\<open>pd.read_csv\<close> makes
  of its bytes (pandas is a library, so its outcome is part of the input). A request
  carries a file or none.
\<close>

record uploaded_file =
  file_name :: string
  read_csv :: "exception + dataframe"

type_synonym request = "uploaded_file option"

text \<open>
  What the code takes from its libraries and its deployment: \<^verbatim>\<open>str\<close> of a numeric cell,
  \<^verbatim>\<open>strftime('%Y-%m-%d %H:%M:%S')\<close> of a timestamp, the text of the TypeError that
  \<^verbatim>\<open>Series.mean\<close> raises on a column holding text, and whether the database stores a
  float NaN as NULL (SQLite does, and the float columns are NOT NULL) or keeps it.
\<close>

record env =
  py_str :: "rat \<Rightarrow> string"
  strftime :: "int \<Rightarrow> string"
  mean_error :: "cell list \<Rightarrow> string"
  nan_is_null :: bool

text \<open>
  \<^verbatim>\<open>EquipmentDataset\<close> and \<^verbatim>\<open>Equipment\<close> of \<^verbatim>\<open>models.py\<close>. The uploader and the stored
  file blob play no part in the statistics, the retention rule or the report and are
  left out. \<^verbatim>\<open>uploaded_at\<close> is a point on an integer time line. \<^verbatim>\<open>equipment_types\<close> is the
  dictionary of \<^verbatim>\<open>value_counts().to_dict()\<close>, kept in its iteration order.
\<close>

record dataset =
  ds_id :: nat
  ds_name :: string
  uploaded_at :: int
  total_count :: nat
  avg_flowrate :: pyfloat
  avg_pressure :: pyfloat
  avg_temperature :: pyfloat
  equipment_types :: "(cell \<times> nat) list"

record equipment =
  eq_id :: "nat option"
  dataset_id :: nat
  equipment_name :: string
  eq_type :: string
  flowrate :: pyfloat
  pressure :: pyfloat
  temperature :: pyfloat

text \<open>
  The database: both tables in insertion (primary key) order, and the next key of each
  table. Keys are never reused.
\<close>

record store =
  datasets :: "dataset list"
  equipment_rows :: "equipment list"
  next_dataset_id :: nat
  next_equipment_id :: nat

text \<open>The four tables of the PDF report, as lists of rows of cell texts.\<close>

record report =
  info_data :: "string list list"
  stats_data :: "string list list"
  type_data :: "string list list"
  equipment_data :: "string list list"

datatype body =
    ErrorData string
  | DatasetData dataset "equipment list"
  | SummaryList "dataset list"
  | PdfData report
  | NotFound

datatype response = Response body nat

section \<open>pandas and Python helpers\<close>

definition endswith :: "string \<Rightarrow> string \<Rightarrow> bool" where
  "endswith s suf = (length suf \<le> length s \<and> drop (length s - length suf) s = suf)"

fun join :: "string \<Rightarrow> string list \<Rightarrow> string" where
  "join sep [] = []"
| "join sep [x] = x"
| "join sep (x # y # ys) = x @ sep @ join sep (y # ys)"

fun is_Str :: "cell \<Rightarrow> bool" where
  "is_Str (Str s) = True"
| "is_Str (Flt x) = False"

fun finite_values :: "cell list \<Rightarrow> rat list" where
  "finite_values [] = []"
| "finite_values (Flt (Fin r) # cs) = r # finite_values cs"
| "finite_values (c # cs) = finite_values cs"

text \<open>
  \<^verbatim>\<open>Series.mean()\<close>: a column holding text raises TypeError; otherwise NaN cells are
  skipped (\<^verbatim>\<open>skipna=True\<close>) and the mean of what remains is returned, NaN when nothing
  remains.
\<close>

definition mean :: "env \<Rightarrow> cell list \<Rightarrow> exception + pyfloat" where
  "mean env xs =
     (if list_ex is_Str xs then Inl (TypeError (mean_error env xs))
      else let vs = finite_values xs
           in if vs = [] then Inr NaN
              else Inr (Fin (sum_list vs / of_nat (length vs))))"

text \<open>Distinct elements in order of first appearance (\<^verbatim>\<open>Series.unique\<close>).\<close>

definition unique :: "'a list \<Rightarrow> 'a list" where
  "unique xs = rev (remdups (rev xs))"

text \<open>
  \<^verbatim>\<open>Series.value_counts().to_dict()\<close>: NaN is dropped (\<^verbatim>\<open>dropna=True\<close>), every remaining
  distinct value is counted by exact equality, and the entries are ordered by descending
  count.
\<close>

definition value_counts :: "cell list \<Rightarrow> (cell \<times> nat) list" where
  "value_counts xs =
     (let labels = filter (\<lambda>c. c \<noteq> Flt NaN) xs
      in sort_key (\<lambda>kc. - int (snd kc)) (map (\<lambda>k. (k, count_list labels k)) (unique labels)))"

text \<open>
  \<^verbatim>\<open>row[label]\<close>. pandas pads a short row with NaN. The view subscripts required columns
  only, after it has checked that they are present, so the KeyError of an absent label
  cannot arise.
\<close>

definition getitem :: "string list \<Rightarrow> cell list \<Rightarrow> string \<Rightarrow> cell" where
  "getitem cols row label =
     (case map_of (zip cols row) label of Some c \<Rightarrow> c | None \<Rightarrow> Flt NaN)"

definition column :: "dataframe \<Rightarrow> string \<Rightarrow> cell list" where
  "column df label = map (\<lambda>row. getitem (columns df) row label) (rows df)"

text \<open>\<^verbatim>\<open>float(x)\<close> on a cell; text that is no number raises ValueError.\<close>

fun float_of :: "cell \<Rightarrow> exception + pyfloat" where
  "float_of (Flt x) = Inr x"
| "float_of (Str s) =
     Inl (ValueError (''could not convert string to float: '' @ [CHR 0x27] @ s @ [CHR 0x27]))"

text \<open>What a \<^verbatim>\<open>CharField\<close> stores for a cell: text as it is, anything else through \<^verbatim>\<open>str\<close>.\<close>

fun char_value :: "env \<Rightarrow> cell \<Rightarrow> string" where
  "char_value env (Str s) = s"
| "char_value env (Flt (Fin r)) = py_str env r"
| "char_value env (Flt NaN) = ''nan''"

section \<open>The database operations the views use\<close>

text \<open>
  \<^verbatim>\<open>EquipmentDataset.objects.all()\<close> under \<^verbatim>\<open>Meta.ordering = ['-uploaded_at']\<close>. SQL leaves
  the order of equal timestamps open; here they keep their primary key order.
\<close>

definition order_by_uploaded_at_desc :: "dataset list \<Rightarrow> dataset list" where
  "order_by_uploaded_at_desc ds = sort_key (\<lambda>d. - uploaded_at d) ds"

definition objects_all :: "store \<Rightarrow> dataset list" where
  "objects_all s = order_by_uploaded_at_desc (datasets s)"

text \<open>
  \<^verbatim>\<open>dataset.equipment_items.all()\<close>: the records of one dataset under
  \<^verbatim>\<open>Meta.ordering = ['equipment_name']\<close>, names compared character by character.
\<close>

definition equipment_items :: "store \<Rightarrow> nat \<Rightarrow> equipment list" where
  "equipment_items s d =
     sort_key equipment_name (filter (\<lambda>e. dataset_id e = d) (equipment_rows s))"

definition get_object :: "store \<Rightarrow> nat \<Rightarrow> dataset option" where
  "get_object s pk = find (\<lambda>d. ds_id d = pk) (datasets s)"

text \<open>
  The IntegrityError of SQLite for a NULL in a NOT NULL column; it names the first such
  column of the row. The tables of the app \<^verbatim>\<open>equipment\<close> are \<^verbatim>\<open>equipment_equipmentdataset\<close>
  and \<^verbatim>\<open>equipment_equipment\<close>.
\<close>

definition not_null_failed :: "string \<Rightarrow> string \<Rightarrow> exception" where
  "not_null_failed table col =
     IntegrityError (''NOT NULL constraint failed: '' @ table @ ''.'' @ col)"

text \<open>
  \<^verbatim>\<open>EquipmentDataset.objects.create(...)\<close>, committed at once. \<^verbatim>\<open>uploaded_at\<close> is the clock
  (\<^verbatim>\<open>auto_now_add\<close>).
\<close>

definition create ::
  "env \<Rightarrow> int \<Rightarrow> string \<Rightarrow> nat \<Rightarrow> pyfloat \<Rightarrow> pyfloat \<Rightarrow> pyfloat \<Rightarrow> (cell \<times> nat) list \<Rightarrow> store
     \<Rightarrow> (exception + dataset) \<times> store" where
  "create env now nm n af ap atm types s =
     (if nan_is_null env \<and> (af = NaN \<or> ap = NaN \<or> atm = NaN)
      then (Inl (not_null_failed ''equipment_equipmentdataset''
                  (if af = NaN then ''avg_flowrate''
                   else if ap = NaN then ''avg_pressure'' else ''avg_temperature'')), s)
      else let d = \<lparr>ds_id = next_dataset_id s, ds_name = nm, uploaded_at = now,
                     total_count = n, avg_flowrate = af, avg_pressure = ap,
                     avg_temperature = atm, equipment_types = types\<rparr>
           in (Inr d, s\<lparr>datasets := datasets s @ [d],
                        next_dataset_id := Suc (next_dataset_id s)\<rparr>))"

definition has_nan :: "equipment \<Rightarrow> bool" where
  "has_nan e = (flowrate e = NaN \<or> pressure e = NaN \<or> temperature e = NaN)"

definition nan_column :: "equipment \<Rightarrow> string" where
  "nan_column e =
     (if flowrate e = NaN then ''flowrate''
      else if pressure e = NaN then ''pressure'' else ''temperature'')"

text \<open>
  \<^verbatim>\<open>Equipment.objects.bulk_create(objs)\<close>: all rows are inserted, or none; the first row
  with a NULL is the one the error names.
\<close>

definition bulk_create :: "env \<Rightarrow> equipment list \<Rightarrow> store \<Rightarrow> (exception + unit) \<times> store" where
  "bulk_create env objs s =
     (case (if nan_is_null env then find has_nan objs else None) of
        Some e \<Rightarrow> (Inl (not_null_failed ''equipment_equipment'' (nan_column e)), s)
      | None \<Rightarrow>
          (Inr (),
           s\<lparr>equipment_rows := equipment_rows s @
                map (\<lambda>(i, e). e\<lparr>eq_id := Some i\<rparr>)
                  (zip [next_equipment_id s ..< next_equipment_id s + length objs] objs),
             next_equipment_id := next_equipment_id s + length objs\<rparr>))"

text \<open>\<^verbatim>\<open>ds.delete()\<close>; \<^verbatim>\<open>on_delete=CASCADE\<close> removes the records of the dataset with it.\<close>

definition delete :: "dataset \<Rightarrow> store \<Rightarrow> store" where
  "delete ds s =
     s\<lparr>datasets := filter (\<lambda>d. ds_id d \<noteq> ds_id ds) (datasets s),
       equipment_rows := filter (\<lambda>e. dataset_id e \<noteq> ds_id ds) (equipment_rows s)\<rparr>"

section \<open>upload\_csv\<close>

definition required_columns :: "string list" where
  "required_columns = [''Equipment Name'', ''Type'', ''Flowrate'', ''Pressure'', ''Temperature'']"

text \<open>The loop over \<^verbatim>\<open>df.iterrows()\<close> that builds \<^verbatim>\<open>equipment_objects\<close>.\<close>

definition make_equipment :: "env \<Rightarrow> string list \<Rightarrow> dataset \<Rightarrow> cell list \<Rightarrow> exception + equipment" where
  "make_equipment env cols ds row =
     (case float_of (getitem cols row ''Flowrate'') of Inl e \<Rightarrow> Inl e | Inr f \<Rightarrow>
      case float_of (getitem cols row ''Pressure'') of Inl e \<Rightarrow> Inl e | Inr p \<Rightarrow>
      case float_of (getitem cols row ''Temperature'') of Inl e \<Rightarrow> Inl e | Inr t \<Rightarrow>
        Inr \<lparr>eq_id = None, dataset_id = ds_id ds,
             equipment_name = char_value env (getitem cols row ''Equipment Name''),
             eq_type = char_value env (getitem cols row ''Type''),
             flowrate = f, pressure = p, temperature = t\<rparr>)"

fun equipment_objects :: "env \<Rightarrow> string list \<Rightarrow> dataset \<Rightarrow> cell list list \<Rightarrow> exception + equipment list" where
  "equipment_objects env cols ds [] = Inr []"
| "equipment_objects env cols ds (row # rest) =
     (case make_equipment env cols ds row of Inl e \<Rightarrow> Inl e | Inr obj \<Rightarrow>
      case equipment_objects env cols ds rest of Inl e \<Rightarrow> Inl e | Inr objs \<Rightarrow> Inr (obj # objs))"

text \<open>Lines 107 to 112: keep the five datasets that come first in the default ordering.\<close>

definition maintain_last_5 :: "store \<Rightarrow> store" where
  "maintain_last_5 s =
     (let all_datasets = objects_all s
      in if length all_datasets > 5 then fold delete (drop 5 all_datasets) s else s)"

text \<open>\<^verbatim>\<open>EquipmentDatasetSerializer\<close>: the dataset with its nested \<^verbatim>\<open>equipment_items\<close>.\<close>

definition serialize :: "store \<Rightarrow> dataset \<Rightarrow> body" where
  "serialize s d = DatasetData d (equipment_items s (ds_id d))"

text \<open>
  The body of the \<^verbatim>\<open>try\<close> block. An exception leaves it with the store as it is at that
  moment: nothing is rolled back.
\<close>

definition process_csv :: "env \<Rightarrow> int \<Rightarrow> uploaded_file \<Rightarrow> store \<Rightarrow> (exception + response) \<times> store" where
  "process_csv env now csv_file s =
     (case read_csv csv_file of Inl e \<Rightarrow> (Inl e, s) | Inr df \<Rightarrow>
      if \<not> list_all (\<lambda>col. col \<in> set (columns df)) required_columns
      then (Inr (Response (ErrorData (''CSV must contain columns: '' @ join '', '' required_columns)) 400), s)
      else
        case mean env (column df ''Flowrate'') of Inl e \<Rightarrow> (Inl e, s) | Inr af \<Rightarrow>
        case mean env (column df ''Pressure'') of Inl e \<Rightarrow> (Inl e, s) | Inr ap \<Rightarrow>
        case mean env (column df ''Temperature'') of Inl e \<Rightarrow> (Inl e, s) | Inr atm \<Rightarrow>
        let type_distribution = value_counts (column df ''Type'')
        in case create env now (file_name csv_file) (length (rows df)) af ap atm type_distribution s of
             (Inl e, s1) \<Rightarrow> (Inl e, s1)
           | (Inr ds, s1) \<Rightarrow>
        case equipment_objects env (columns df) ds (rows df) of Inl e \<Rightarrow> (Inl e, s1) | Inr objs \<Rightarrow>
        case bulk_create env objs s1 of
             (Inl e, s2) \<Rightarrow> (Inl e, s2)
           | (Inr u, s2) \<Rightarrow>
        let s3 = maintain_last_5 s2
        in (Inr (Response (serialize s3 ds) 201), s3))"

definition upload_csv :: "env \<Rightarrow> int \<Rightarrow> request \<Rightarrow> store \<Rightarrow> response \<times> store" where
  "upload_csv env now req s =
     (case req of
        None \<Rightarrow> (Response (ErrorData ''No file provided'') 400, s)
      | Some csv_file \<Rightarrow>
          if \<not> endswith (file_name csv_file) ''.csv''
          then (Response (ErrorData ''File must be a CSV'') 400, s)
          else (case process_csv env now csv_file s of
                  (Inl e, s') \<Rightarrow> (Response (ErrorData (''Error processing CSV: '' @ str_exception e)) 400, s')
                | (Inr resp, s') \<Rightarrow> (resp, s')))"

section \<open>Reading back: retrieve, history\_list, generate\_pdf\<close>

text \<open>
  The \<^verbatim>\<open>retrieve\<close> action of the \<^verbatim>\<open>ModelViewSet\<close> (get by id) with the serializer class of
  the view set, and \<^verbatim>\<open>history_list\<close>. Every reader returns the store it was given.
\<close>

definition retrieve :: "nat \<Rightarrow> store \<Rightarrow> response \<times> store" where
  "retrieve pk s =
     (case get_object s pk of
        None \<Rightarrow> (Response NotFound 404, s)
      | Some d \<Rightarrow> (Response (serialize s d) 200, s))"

definition history_list :: "store \<Rightarrow> response \<times> store" where
  "history_list s = (Response (SummaryList (take 5 (order_by_uploaded_at_desc (datasets s)))) 200, s)"

text \<open>\<^verbatim>\<open>str(n)\<close> of a natural number.\<close>

definition digit_char :: "nat \<Rightarrow> char" where
  "digit_char n = ''0123456789'' ! n"

fun str_nat :: "nat \<Rightarrow> string" where
  "str_nat n = (if n < 10 then [digit_char n] else str_nat (n div 10) @ [digit_char (n mod 10)])"

declare str_nat.simps [simp del]

text \<open>
  The format specifications \<^verbatim>\<open>:.1f\<close> and \<^verbatim>\<open>:.2f\<close>: the exact value is rounded to the
  nearest multiple of \<open>10\<^sup>-\<^sup>p\<close>, ties to the even one, and written with \<open>p\<close> digits after
  the point; a negative value keeps its sign.
\<close>

definition round_half_even :: "rat \<Rightarrow> int" where
  "round_half_even q =
     (let f = \<lfloor>q\<rfloor>; d = q - of_int f
      in if d < 1 / 2 then f else if 1 / 2 < d then f + 1 else if even f then f else f + 1)"

definition zfill :: "nat \<Rightarrow> string \<Rightarrow> string" where
  "zfill w s = replicate (w - length s) CHR ''0'' @ s"

fun format_f :: "nat \<Rightarrow> pyfloat \<Rightarrow> string" where
  "format_f p NaN = ''nan''"
| "format_f p (Fin r) =
     (let n = nat (round_half_even (\<bar>r\<bar> * 10 ^ p))
      in (if r < 0 then ''-'' else '''') @ str_nat (n div 10 ^ p) @
         (if p = 0 then '''' else ''.'' @ zfill p (str_nat (n mod 10 ^ p))))"

text \<open>
  One row of the "Equipment Details" table. A slice \<^verbatim>\<open>[:20]\<close> keeps the first twenty
  characters.
\<close>

definition equipment_row :: "equipment \<Rightarrow> string list" where
  "equipment_row e =
     [take 20 (equipment_name e), take 15 (eq_type e),
      format_f 1 (flowrate e), format_f 1 (pressure e), format_f 1 (temperature e)]"

text \<open>
  \<^verbatim>\<open>generate_pdf\<close>: the content of the four tables; fonts, colours and page layout are
  left out.
\<close>

definition generate_pdf :: "env \<Rightarrow> nat \<Rightarrow> store \<Rightarrow> response \<times> store" where
  "generate_pdf env pk s =
     (case get_object s pk of
        None \<Rightarrow> (Response NotFound 404, s)
      | Some ds \<Rightarrow>
          (Response (PdfData
             \<lparr>info_data =
                [[''Dataset Name:'', ds_name ds],
                 [''Upload Date:'', strftime env (uploaded_at ds)],
                 [''Total Equipment:'', str_nat (total_count ds)]],
              stats_data =
                [[''Metric'', ''Average Value''],
                 [''Flowrate'', format_f 2 (avg_flowrate ds)],
                 [''Pressure'', format_f 2 (avg_pressure ds)],
                 [''Temperature'', format_f 2 (avg_temperature ds)]],
              type_data =
                [''Equipment Type'', ''Count''] #
                map (\<lambda>kc. [char_value env (fst kc), str_nat (snd kc)]) (equipment_types ds),
              equipment_data =
                [''Name'', ''Type'', ''Flowrate'', ''Pressure'', ''Temp''] #
                map equipment_row (take 20 (equipment_items s (ds_id ds)))\<rparr>) 200, s))"

section \<open>Well-formed stores\<close>

text \<open>
  Primary keys are unique and below the next key, and every record points to a key that
  has been handed out.
\<close>

definition wf_store :: "store \<Rightarrow> bool" where
  "wf_store s =
     (distinct (map ds_id (datasets s)) \<and>
      list_all (\<lambda>d. ds_id d < next_dataset_id s) (datasets s) \<and>
      list_all (\<lambda>e. dataset_id e < next_dataset_id s) (equipment_rows s))"

definition empty_store :: store where
  "empty_store = \<lparr>datasets = [], equipment_rows = [], next_dataset_id = 1, next_equipment_id = 1\<rparr>"

section \<open>Notions used to state the properties\<close>



fun the_float :: "cell \<Rightarrow> pyfloat" where
  "the_float (Flt x) = x"
| "the_float (Str s) = NaN"

definition row_object :: "env \<Rightarrow> string list \<Rightarrow> dataset \<Rightarrow> cell list \<Rightarrow> equipment" where
  "row_object env cols ds row =
     \<lparr>eq_id = None, dataset_id = ds_id ds,
      equipment_name = char_value env (getitem cols row ''Equipment Name''),
      eq_type = char_value env (getitem cols row ''Type''),
      flowrate = the_float (getitem cols row ''Flowrate''),
      pressure = the_float (getitem cols row ''Pressure''),
      temperature = the_float (getitem cols row ''Temperature'')\<rparr>"

definition new_dataset :: "env \<Rightarrow> int \<Rightarrow> uploaded_file \<Rightarrow> dataframe \<Rightarrow> store \<Rightarrow> pyfloat \<Rightarrow> pyfloat \<Rightarrow> pyfloat \<Rightarrow> dataset" where
  "new_dataset env now f df s af ap atm =
     \<lparr>ds_id = next_dataset_id s, ds_name = file_name f, uploaded_at = now,
      total_count = length (rows df), avg_flowrate = af, avg_pressure = ap,
      avg_temperature = atm, equipment_types = value_counts (column df ''Type'')\<rparr>"

definition with_dataset :: "dataset \<Rightarrow> store \<Rightarrow> store" where
  "with_dataset d s = s\<lparr>datasets := datasets s @ [d], next_dataset_id := Suc (next_dataset_id s)\<rparr>"

definition with_equipment :: "equipment list \<Rightarrow> store \<Rightarrow> store" where
  "with_equipment objs s =
     s\<lparr>equipment_rows := equipment_rows s @
          map (\<lambda>(i, e). e\<lparr>eq_id := Some i\<rparr>)
            (zip [next_equipment_id s ..< next_equipment_id s + length objs] objs),
       next_equipment_id := next_equipment_id s + length objs\<rparr>"

section \<open>Sample deployments, uploads and stores\<close>

text \<open>The sample upload of the two rows Pump1 and Valve1.\<close>

definition df_pumps :: dataframe where
  "df_pumps = \<lparr>columns = [''Equipment Name'', ''Type'', ''Flowrate'', ''Pressure'', ''Temperature''],
          rows = [[Str ''Pump1'', Str ''Pump'', Flt (Fin 10), Flt (Fin 5), Flt (Fin 20)],
                  [Str ''Valve1'', Str ''Valve'', Flt (Fin 0), Flt (Fin 2), Flt (Fin 15)]]\<rparr>"

text \<open>
  A deployment on SQLite and one on a database that keeps NaN. The texts of \<^verbatim>\<open>str\<close> and
  \<^verbatim>\<open>strftime\<close> are stand-ins: the sample uploads hold no numeric names, and no property
  below looks at a date.
\<close>

definition sqlite_env :: env where
  "sqlite_env = \<lparr>py_str = (\<lambda>r. ''0''), strftime = (\<lambda>t. ''2024-01-01 00:00:00''),
                  mean_error = (\<lambda>cs. ''Could not convert string to numeric''), nan_is_null = True\<rparr>"

definition keep_nan_env :: env where
  "keep_nan_env = sqlite_env\<lparr>nan_is_null := False\<rparr>"

definition upload_of :: "string \<Rightarrow> dataframe \<Rightarrow> request" where
  "upload_of nm df = Some \<lparr>file_name = nm, read_csv = Inr df\<rparr>"

definition df_no_type :: dataframe where
  "df_no_type = \<lparr>columns = [''Equipment Name'', ''Flowrate'', ''Pressure'', ''Temperature''],
                  rows = [[Str ''Pump1'', Flt (Fin 10), Flt (Fin 5), Flt (Fin 20)]]\<rparr>"


definition df_empty :: dataframe where
  "df_empty = \<lparr>columns = [''Equipment Name'', ''Type'', ''Flowrate'', ''Pressure'', ''Temperature''],
                rows = []\<rparr>"

definition df_no_label :: dataframe where
  "df_no_label = \<lparr>columns = [''Equipment Name'', ''Type'', ''Flowrate'', ''Pressure'', ''Temperature''],
                   rows = [[Str ''Pump1'', Str ''Pump'', Flt (Fin 10), Flt (Fin 5), Flt (Fin 20)],
                           [Str ''Valve1'', Flt NaN, Flt (Fin 0), Flt (Fin 2), Flt (Fin 15)]]\<rparr>"

definition pumps_dataset :: dataset where
  "pumps_dataset = \<lparr>ds_id = 1, ds_name = ''pumps.csv'', uploaded_at = 100, total_count = 2,
       avg_flowrate = Fin 5, avg_pressure = Fin (7 / 2), avg_temperature = Fin (35 / 2),
       equipment_types = [(Str ''Pump'', 1), (Str ''Valve'', 1)]\<rparr>"

definition pumps_records :: "equipment list" where
  "pumps_records =
     [\<lparr>eq_id = Some 1, dataset_id = 1, equipment_name = ''Pump1'', eq_type = ''Pump'',
        flowrate = Fin 10, pressure = Fin 5, temperature = Fin 20\<rparr>,
      \<lparr>eq_id = Some 2, dataset_id = 1, equipment_name = ''Valve1'', eq_type = ''Valve'',
        flowrate = Fin 0, pressure = Fin 2, temperature = Fin 15\<rparr>]"

definition pumps_store :: store where
  "pumps_store = \<lparr>datasets = [pumps_dataset], equipment_rows = pumps_records,
                   next_dataset_id = 2, next_equipment_id = 3\<rparr>"

definition no_label_dataset :: dataset where
  "no_label_dataset = \<lparr>ds_id = 1, ds_name = ''pumps.csv'', uploaded_at = 100, total_count = 2,
       avg_flowrate = Fin 5, avg_pressure = Fin (7 / 2), avg_temperature = Fin (35 / 2),
       equipment_types = [(Str ''Pump'', 1)]\<rparr>"

definition empty_dataset :: dataset where
  "empty_dataset = \<lparr>ds_id = 1, ds_name = ''empty.csv'', uploaded_at = 100, total_count = 0,
       avg_flowrate = NaN, avg_pressure = NaN, avg_temperature = NaN, equipment_types = []\<rparr>"

definition dataset_of :: "response \<Rightarrow> dataset option" where
  "dataset_of r = (case r of Response (DatasetData d items) st \<Rightarrow> Some d | _ \<Rightarrow> None)"

text \<open>
  The database can reject the records of an upload only where it stores NaN as NULL and
  a flow rate, pressure or temperature cell is empty. The stored records of a dataset.
\<close>

definition records_rejected :: "env \<Rightarrow> request \<Rightarrow> bool" where
  "records_rejected env req =
     (case req of None \<Rightarrow> False
      | Some f \<Rightarrow>
          (case read_csv f of Inl e \<Rightarrow> False
           | Inr df \<Rightarrow> nan_is_null env \<and>
               list_ex (\<lambda>c. c = Flt NaN)
                 (column df ''Flowrate'' @ column df ''Pressure'' @ column df ''Temperature'')))"

definition old_dataset :: "nat \<Rightarrow> int \<Rightarrow> dataset" where
  "old_dataset i t = \<lparr>ds_id = i, ds_name = ''old.csv'', uploaded_at = t, total_count = 0,
       avg_flowrate = Fin 0, avg_pressure = Fin 0, avg_temperature = Fin 0, equipment_types = []\<rparr>"

definition five_store :: store where
  "five_store = \<lparr>datasets = [old_dataset 1 10, old_dataset 2 20, old_dataset 3 30,
                                old_dataset 4 40, old_dataset 5 50],
                  equipment_rows = [], next_dataset_id = 6, next_equipment_id = 1\<rparr>"

definition sixth_dataset :: dataset where
  "sixth_dataset = pumps_dataset\<lparr>ds_id := 6\<rparr>"

definition sixth_records :: "equipment list" where
  "sixth_records = map (\<lambda>e. e\<lparr>dataset_id := 6\<rparr>) pumps_records"

definition after_sixth :: store where
  "after_sixth = \<lparr>datasets = [old_dataset 2 20, old_dataset 3 30, old_dataset 4 40,
                                 old_dataset 5 50, sixth_dataset],
                   equipment_rows = sixth_records, next_dataset_id = 7, next_equipment_id = 3\<rparr>"



definition records_of :: "store \<Rightarrow> dataset \<Rightarrow> equipment list" where
  "records_of s d = filter (\<lambda>e. dataset_id e = ds_id d) (equipment_rows s)"


definition df_unsorted :: dataframe where
  "df_unsorted = \<lparr>columns = [''Equipment Name'', ''Type'', ''Flowrate'', ''Pressure'', ''Temperature''],
                   rows = [[Str ''Valve1'', Str ''Valve'', Flt (Fin 0), Flt (Fin 2), Flt (Fin 15)],
                           [Str ''Pump1'', Str ''Pump'', Flt (Fin 10), Flt (Fin 5), Flt (Fin 20)]]\<rparr>"

definition valve_record :: equipment where
  "valve_record = \<lparr>eq_id = Some 1, dataset_id = 1, equipment_name = ''Valve1'', eq_type = ''Valve'',
        flowrate = Fin 0, pressure = Fin 2, temperature = Fin 15\<rparr>"

definition pump_record :: equipment where
  "pump_record = \<lparr>eq_id = Some 2, dataset_id = 1, equipment_name = ''Pump1'', eq_type = ''Pump'',
        flowrate = Fin 10, pressure = Fin 5, temperature = Fin 20\<rparr>"

definition unsorted_dataset :: dataset where
  "unsorted_dataset = pumps_dataset\<lparr>equipment_types := [(Str ''Valve'', 1), (Str ''Pump'', 1)]\<rparr>"

definition unsorted_store :: store where
  "unsorted_store = \<lparr>datasets = [unsorted_dataset], equipment_rows = [valve_record, pump_record],
                      next_dataset_id = 2, next_equipment_id = 3\<rparr>"




text \<open>Every stored dataset has as many stored records as its \<^verbatim>\<open>total_count\<close> says.\<close>

definition records_match :: "store \<Rightarrow> bool" where
  "records_match s = list_all (\<lambda>d. length (records_of s d) = total_count d) (datasets s)"

section \<open>Statistics of an upload\<close>





lemma float_of_no_Str: "\<not> is_Str c \<Longrightarrow> float_of c = Inr (the_float c)"
  by (cases c) auto

lemma make_equipment_numeric:
  assumes "\<not> is_Str (getitem cols row ''Flowrate'')"
    and "\<not> is_Str (getitem cols row ''Pressure'')"
    and "\<not> is_Str (getitem cols row ''Temperature'')"
  shows "make_equipment env cols ds row = Inr (row_object env cols ds row)"
  using assms by (simp add: make_equipment_def row_object_def float_of_no_Str)

lemma equipment_objects_numeric:
  assumes "\<not> list_ex is_Str (map (\<lambda>row. getitem cols row ''Flowrate'') rs)"
    and "\<not> list_ex is_Str (map (\<lambda>row. getitem cols row ''Pressure'') rs)"
    and "\<not> list_ex is_Str (map (\<lambda>row. getitem cols row ''Temperature'') rs)"
  shows "equipment_objects env cols ds rs = Inr (map (row_object env cols ds) rs)"
  using assms by (induction rs) (simp_all add: make_equipment_numeric)

lemma mean_Inr_no_Str: "mean env xs = Inr m \<Longrightarrow> \<not> list_ex is_Str xs"
  by (auto simp: mean_def split: if_splits)

lemma bulk_create_cases:
  "bulk_create env objs s =
     (if nan_is_null env \<and> list_ex has_nan objs
      then (Inl (not_null_failed ''equipment_equipment'' (nan_column (the (find has_nan objs)))), s)
      else (Inr (), with_equipment objs s))"
proof (cases "find has_nan objs")
  case None
  then have "\<not> list_ex has_nan objs"
    by (auto simp: find_None_iff list_ex_iff)
  with None show ?thesis
    by (simp add: bulk_create_def with_equipment_def)
next
  case (Some e)
  then have "list_ex has_nan objs"
    by (auto simp: find_Some_iff list_ex_iff)
  with Some show ?thesis
    by (simp add: bulk_create_def with_equipment_def)
qed

lemma process_csv_numeric:
  assumes rd: "read_csv f = Inr df"
    and cols: "list_all (\<lambda>c. c \<in> set (columns df)) required_columns"
    and mf: "mean env (column df ''Flowrate'') = Inr af"
    and mp: "mean env (column df ''Pressure'') = Inr ap"
    and mt: "mean env (column df ''Temperature'') = Inr atm"
  shows "process_csv env now f s =
     (let d = new_dataset env now f df s af ap atm;
          objs = map (row_object env (columns df) d) (rows df)
      in if nan_is_null env \<and> (af = NaN \<or> ap = NaN \<or> atm = NaN)
         then (Inl (not_null_failed ''equipment_equipmentdataset''
                     (if af = NaN then ''avg_flowrate''
                      else if ap = NaN then ''avg_pressure'' else ''avg_temperature'')), s)
         else if nan_is_null env \<and> list_ex has_nan objs
         then (Inl (not_null_failed ''equipment_equipment'' (nan_column (the (find has_nan objs)))),
               with_dataset d s)
         else (Inr (Response (serialize (maintain_last_5 (with_equipment objs (with_dataset d s))) d) 201),
               maintain_last_5 (with_equipment objs (with_dataset d s))))"
proof -
  have eo: "equipment_objects env (columns df) d (rows df) = Inr (map (row_object env (columns df) d) (rows df))" for d
    using mean_Inr_no_Str [OF mf] mean_Inr_no_Str [OF mp] mean_Inr_no_Str [OF mt]
    by (intro equipment_objects_numeric) (simp_all add: column_def)
  show ?thesis
    using rd cols mf mp mt
    by (simp add: process_csv_def create_def bulk_create_cases Let_def eo new_dataset_def
        with_dataset_def)
qed








section \<open>Rejected uploads\<close>

lemma join_required_columns:
  "''CSV must contain columns: '' @ join '', '' required_columns =
     ''CSV must contain columns: Equipment Name, Type, Flowrate, Pressure, Temperature''"
  by (simp add: required_columns_def)

lemma join_contains: "c \<in> set xs \<Longrightarrow> \<exists>p q. join sep xs = p @ c @ q"
proof (induction sep xs rule: join.induct)
  case (1 sep)
  then show ?case by simp
next
  case (2 sep x)
  then have "join sep [x] = [] @ c @ []" by simp
  then show ?case by blast
next
  case (3 sep x y ys)
  show ?case
  proof (cases "c = x")
    case True
    then have "join sep (x # y # ys) = [] @ c @ (sep @ join sep (y # ys))" by simp
    then show ?thesis by blast
  next
    case False
    with 3 obtain p q where "join sep (y # ys) = p @ c @ q" by auto
    then have "join sep (x # y # ys) = (x @ sep @ p) @ c @ q" by simp
    then show ?thesis by blast
  qed
qed

lemma upload_csv_columns_missing:
  assumes "endswith (file_name f) ''.csv''" and "read_csv f = Inr df"
    and "\<not> list_all (\<lambda>c. c \<in> set (columns df)) required_columns"
  shows "upload_csv env now (Some f) s =
     (Response (ErrorData (''CSV must contain columns: '' @ join '', '' required_columns)) 400, s)"
  using assms by (simp add: upload_csv_def process_csv_def)


text \<open>
  C6. An upload whose header lacks a required column is answered with status 400 and the
  message that lists the required columns, so every missing column is named in it, and
  the store is returned as it was: no dataset and no record is added.
\<close>

theorem upload_csv_missing_columns:
  assumes "endswith (file_name f) ''.csv''" and "read_csv f = Inr df"
    and "c \<in> set required_columns" and "c \<notin> set (columns df)"
  shows "upload_csv env now (Some f) s =
     (Response (ErrorData ''CSV must contain columns: Equipment Name, Type, Flowrate, Pressure, Temperature'') 400, s)
     \<and> (\<exists>p q. ''CSV must contain columns: Equipment Name, Type, Flowrate, Pressure, Temperature''
                 = p @ c @ q)"
proof -
  have "\<not> list_all (\<lambda>c. c \<in> set (columns df)) required_columns"
    using assms(3,4) by (auto simp: list_all_iff)
  from upload_csv_columns_missing [OF assms(1,2) this]
  have res: "upload_csv env now (Some f) s =
     (Response (ErrorData ''CSV must contain columns: Equipment Name, Type, Flowrate, Pressure, Temperature'') 400, s)"
    by (simp only: join_required_columns)
  obtain p q where "join '', '' required_columns = p @ c @ q"
    using join_contains [OF assms(3)] by blast
  then have "''CSV must contain columns: '' @ join '', '' required_columns
      = (''CSV must contain columns: '' @ p) @ c @ q"
    by simp
  then have "\<exists>p q. ''CSV must contain columns: Equipment Name, Type, Flowrate, Pressure, Temperature''
                 = p @ c @ q"
    unfolding join_required_columns by blast
  with res show ?thesis by blast
qed

theorem upload_csv_missing_columns_witness:
  "upload_csv sqlite_env 100 (upload_of ''pumps.csv'' df_no_type) empty_store =
     (Response (ErrorData ''CSV must contain columns: Equipment Name, Type, Flowrate, Pressure, Temperature'') 400,
      empty_store)
   \<and> (\<exists>p q. ''CSV must contain columns: Equipment Name, Type, Flowrate, Pressure, Temperature''
               = p @ ''Type'' @ q)"
  using upload_csv_missing_columns [of "\<lparr>file_name = ''pumps.csv'', read_csv = Inr df_no_type\<rparr>"
      df_no_type "''Type''" sqlite_env 100 empty_store]
  by (simp add: upload_of_def endswith_def required_columns_def df_no_type_def)



section \<open>What a successful upload has done\<close>

text \<open>
  Every answer other than the serialized dataset has status 400, and the serialized
  dataset is reached on one path only: the file is there, its name ends in \<^verbatim>\<open>.csv\<close>, it
  parses, the columns are present, the three means exist and both insertions are accepted.
\<close>

lemma upload_csv_success:
  assumes "upload_csv env now req s = (Response b st, s')"
    and "st = 201 \<or> (\<exists>d items. b = DatasetData d items)"
  obtains f df af ap atm where "req = Some f" and "endswith (file_name f) ''.csv''"
    and "read_csv f = Inr df"
    and "list_all (\<lambda>c. c \<in> set (columns df)) required_columns"
    and "mean env (column df ''Flowrate'') = Inr af"
    and "mean env (column df ''Pressure'') = Inr ap"
    and "mean env (column df ''Temperature'') = Inr atm"
    and "\<not> (nan_is_null env \<and> (af = NaN \<or> ap = NaN \<or> atm = NaN))"
    and "\<not> (nan_is_null env \<and> list_ex has_nan
            (map (row_object env (columns df) (new_dataset env now f df s af ap atm)) (rows df)))"
    and "s' = maintain_last_5 (with_equipment
            (map (row_object env (columns df) (new_dataset env now f df s af ap atm)) (rows df))
            (with_dataset (new_dataset env now f df s af ap atm) s))"
    and "b = serialize s' (new_dataset env now f df s af ap atm)"
    and "st = 201"
proof (cases req)
  case None
  with assms show ?thesis by (auto simp: upload_csv_def)
next
  case (Some f)
  show ?thesis
  proof (cases "endswith (file_name f) ''.csv''")
    case False
    with Some assms show ?thesis by (auto simp: upload_csv_def)
  next
    case ends: True
    show ?thesis
    proof (cases "read_csv f")
      case (Inl e)
      with Some ends assms show ?thesis by (auto simp: upload_csv_def process_csv_def)
    next
      case (Inr df)
      show ?thesis
      proof (cases "list_all (\<lambda>c. c \<in> set (columns df)) required_columns")
        case False
        with Some ends Inr assms show ?thesis by (auto simp: upload_csv_def process_csv_def)
      next
        case cols: True
        show ?thesis
        proof (cases "mean env (column df ''Flowrate'')")
          case (Inl e)
          with Some ends Inr cols assms show ?thesis by (auto simp: upload_csv_def process_csv_def)
        next
          case mf: (Inr af)
          show ?thesis
          proof (cases "mean env (column df ''Pressure'')")
            case (Inl e)
            with Some ends Inr cols mf assms show ?thesis by (auto simp: upload_csv_def process_csv_def)
          next
            case mp: (Inr ap)
            show ?thesis
            proof (cases "mean env (column df ''Temperature'')")
              case (Inl e)
              with Some ends Inr cols mf mp assms show ?thesis
                by (auto simp: upload_csv_def process_csv_def)
            next
              case mt: (Inr atm)
              note pc = process_csv_numeric [OF Inr cols mf mp mt, of now s]
              from assms Some ends show ?thesis
                by (intro that [OF Some ends Inr cols mf mp mt])
                  (auto simp: upload_csv_def pc Let_def serialize_def split: if_splits)
            qed
          qed
        qed
      qed
    qed
  qed
qed

lemmas upload_defs =
  upload_csv_def process_csv_def upload_of_def endswith_def required_columns_def column_def
  getitem_def mean_def value_counts_def unique_def create_def bulk_create_def make_equipment_def
  has_nan_def nan_column_def not_null_failed_def maintain_last_5_def objects_all_def order_by_uploaded_at_desc_def serialize_def
  equipment_items_def empty_store_def sqlite_env_def keep_nan_env_def Let_def

lemma upload_pumps:
  "upload_csv sqlite_env 100 (upload_of ''pumps.csv'' df_pumps) empty_store
     = (Response (DatasetData pumps_dataset pumps_records) 201, pumps_store)"
  by (simp add: upload_defs df_pumps_def pumps_dataset_def pumps_records_def pumps_store_def)

section \<open>The type distribution\<close>

lemma set_unique: "set (unique xs) = set xs"
  by (simp add: unique_def)

lemma distinct_unique: "distinct (unique xs)"
  by (simp add: unique_def)

lemma value_counts_keys:
  "set (map fst (value_counts xs)) = {c \<in> set xs. c \<noteq> Flt NaN}"
  by (simp add: value_counts_def Let_def set_unique image_image)

lemma mset_map_sort_key: "mset (map g (sort_key f ys)) = mset (map g ys)"
  by simp

lemma value_counts_distinct: "distinct (map fst (value_counts xs))"
proof -
  let ?labels = "filter (\<lambda>c. c \<noteq> Flt NaN) xs"
  let ?ys = "map (\<lambda>k. (k, count_list ?labels k)) (unique ?labels)"
  have "mset (map fst (value_counts xs)) = mset (map fst ?ys)"
    unfolding value_counts_def Let_def by (rule mset_map_sort_key)
  moreover have "map fst ?ys = unique ?labels"
    by (simp add: comp_def)
  ultimately have "mset (map fst (value_counts xs)) = mset (unique ?labels)"
    by (simp only:)
  then show ?thesis
    using distinct_unique [of ?labels] by (metis mset_eq_imp_distinct_iff)
qed

lemma count_list_filter: "P k \<Longrightarrow> count_list (filter P xs) k = count_list xs k"
  by (induction xs) auto

lemma value_counts_count:
  assumes "(k, n) \<in> set (value_counts xs)"
  shows "n = count_list xs k \<and> 0 < n"
proof -
  from assms have k: "k \<in> set xs" "k \<noteq> Flt NaN"
    and n: "n = count_list (filter (\<lambda>c. c \<noteq> Flt NaN) xs) k"
    by (auto simp: value_counts_def Let_def set_unique)
  from k n have "n = count_list xs k"
    by (simp add: count_list_filter)
  moreover have "0 < count_list xs k"
    using k(1) by (metis count_list_0_iff gr0I)
  ultimately show ?thesis by simp
qed

lemma value_counts_total:
  "sum_list (map snd (value_counts xs)) = length (filter (\<lambda>c. c \<noteq> Flt NaN) xs)"
proof -
  let ?labels = "filter (\<lambda>c. c \<noteq> Flt NaN) xs"
  let ?ys = "map (\<lambda>k. (k, count_list ?labels k)) (unique ?labels)"
  have "mset (map snd (value_counts xs)) = mset (map snd ?ys)"
    unfolding value_counts_def Let_def by (rule mset_map_sort_key)
  then have "sum_list (map snd (value_counts xs)) = sum_list (map snd ?ys)"
    by (metis sum_mset_sum_list)
  also have "map snd ?ys = map (count_list ?labels) (unique ?labels)"
    by (simp add: comp_def)
  also have "sum_list (map (count_list ?labels) (unique ?labels)) = sum (count_list ?labels) (set (unique ?labels))"
    by (rule sum_list_distinct_conv_sum_set [OF distinct_unique])
  also have "\<dots> = length ?labels"
    by (simp add: set_unique sum_count_set)
  finally show ?thesis .
qed

text \<open>
  C5, as stated, fails: a row whose type cell is empty is counted in \<^verbatim>\<open>total_count\<close> but
  not in \<^verbatim>\<open>equipment_types\<close>, because \<^verbatim>\<open>value_counts\<close> drops NaN. Here two rows are
  uploaded, one without a type; the counts sum to 1.
\<close>

theorem upload_csv_equipment_types_counterexample:
  "dataset_of (fst (upload_csv sqlite_env 100 (upload_of ''pumps.csv'' df_no_label) empty_store))
     = Some no_label_dataset \<and>
   sum_list (map snd (equipment_types no_label_dataset)) \<noteq> total_count no_label_dataset"
  by (simp add: upload_defs df_no_label_def no_label_dataset_def dataset_of_def)


text \<open>
  C5, amended. Whenever \<^verbatim>\<open>upload_csv\<close> answers with a dataset, the keys of its
  \<^verbatim>\<open>equipment_types\<close> are exactly the distinct type labels of the rows that have one (compared
  by equality, so case-sensitively), no key occurs twice, each key is mapped to the
  number of rows bearing it, and the values sum to the number of rows with a type
  label; that is \<open>N\<close>, the total row count, when no type cell is empty.
\<close>

theorem upload_csv_equipment_types:
  assumes "upload_csv env now (Some f) s = (Response (DatasetData d items) st, s')"
    and "read_csv f = Inr df"
  shows "set (map fst (equipment_types d)) = {c \<in> set (column df ''Type''). c \<noteq> Flt NaN} \<and>
    distinct (map fst (equipment_types d)) \<and>
    (\<forall>k n. (k, n) \<in> set (equipment_types d) \<longrightarrow> n = count_list (column df ''Type'') k) \<and>
    sum_list (map snd (equipment_types d)) = length (filter (\<lambda>c. c \<noteq> Flt NaN) (column df ''Type'')) \<and>
    total_count d = length (rows df) \<and>
    (Flt NaN \<notin> set (column df ''Type'') \<longrightarrow> sum_list (map snd (equipment_types d)) = total_count d)"
proof -
  from assms(1) have "st = 201 \<or> (\<exists>d' items'. DatasetData d items = DatasetData d' items')"
    by simp
  with assms(1) obtain f' df' af ap atm where "Some f = Some f'" and "read_csv f' = Inr df'"
    and "DatasetData d items = serialize s' (new_dataset env now f' df' s af ap atm)"
    by (rule upload_csv_success)
  with assms(2) have d: "d = new_dataset env now f df s af ap atm"
    by (simp add: serialize_def)
  then have types: "equipment_types d = value_counts (column df ''Type'')"
    and count: "total_count d = length (rows df)"
    by (simp_all add: new_dataset_def)
  have full: "length (filter (\<lambda>c. c \<noteq> Flt NaN) (column df ''Type'')) = length (rows df)"
    if "Flt NaN \<notin> set (column df ''Type'')"
  proof -
    from that have "filter (\<lambda>c. c \<noteq> Flt NaN) (column df ''Type'') = column df ''Type''"
      by (auto simp: filter_id_conv)
    then show ?thesis by (simp add: column_def)
  qed
  show ?thesis
    unfolding types count
    using value_counts_keys [of "column df ''Type''"] value_counts_distinct [of "column df ''Type''"]
      value_counts_count [of _ _ "column df ''Type''"] value_counts_total [of "column df ''Type''"] full
    by (intro conjI allI impI) simp_all
qed

theorem upload_csv_equipment_types_witness:
  "set (map fst (equipment_types pumps_dataset)) = {Str ''Pump'', Str ''Valve''} \<and>
   sum_list (map snd (equipment_types pumps_dataset)) = 2 \<and> total_count pumps_dataset = 2"
  using upload_csv_equipment_types [OF upload_pumps [unfolded upload_of_def], of df_pumps]
  by (simp add: pumps_dataset_def)

section \<open>An upload without rows\<close>

text \<open>
  C4, as stated, fails: the mean of an empty column is NaN. On SQLite the dataset row
  with NaN averages is rejected and the upload is answered with an error; on a database
  that keeps NaN the upload succeeds and the stored averages are NaN, not 0.
\<close>

theorem upload_csv_no_rows_counterexample:
  "upload_csv sqlite_env 100 (upload_of ''empty.csv'' df_empty) empty_store =
     (Response (ErrorData ''Error processing CSV: NOT NULL constraint failed: equipment_equipmentdataset.avg_flowrate'') 400,
      empty_store) \<and>
   fst (upload_csv keep_nan_env 100 (upload_of ''empty.csv'' df_empty) empty_store) =
     Response (DatasetData empty_dataset []) 201 \<and>
   avg_flowrate empty_dataset \<noteq> Fin 0"
  by (simp add: upload_defs df_empty_def empty_dataset_def)
text \<open>
  C4, amended. For an upload with the required columns and zero rows the three means
  are NaN: where the database stores NaN as NULL the upload is answered with status 400
  and the processing error, and the store is unchanged; where the database keeps NaN the
  upload is answered with status 201 and a dataset with \<^verbatim>\<open>total_count\<close> 0, the three averages
  NaN and an empty type distribution.
\<close>

theorem upload_csv_no_rows:
  assumes "endswith (file_name f) ''.csv''" and "read_csv f = Inr df"
    and "list_all (\<lambda>c. c \<in> set (columns df)) required_columns"
    and "rows df = []"
  shows "(nan_is_null env \<longrightarrow>
            upload_csv env now (Some f) s =
              (Response (ErrorData ''Error processing CSV: NOT NULL constraint failed: equipment_equipmentdataset.avg_flowrate'') 400, s)) \<and>
         (\<not> nan_is_null env \<longrightarrow>
            (\<exists>d items s'. upload_csv env now (Some f) s = (Response (DatasetData d items) 201, s') \<and>
               total_count d = 0 \<and> avg_flowrate d = NaN \<and> avg_pressure d = NaN \<and>
               avg_temperature d = NaN \<and> equipment_types d = []))"
proof -
  have m: "mean env (column df c) = Inr NaN" for c
    using assms(4) by (simp add: mean_def column_def)
  note pc = process_csv_numeric [OF assms(2,3) m m m, of now s]
  show ?thesis
    using assms(1,4)
    by (simp add: upload_csv_def pc Let_def serialize_def new_dataset_def column_def value_counts_def
        unique_def not_null_failed_def)
qed

theorem upload_csv_no_rows_witness:
  "upload_csv sqlite_env 100 (upload_of ''empty.csv'' df_empty) pumps_store =
     (Response (ErrorData ''Error processing CSV: NOT NULL constraint failed: equipment_equipmentdataset.avg_flowrate'') 400,
      pumps_store) \<and>
   (\<exists>d items s'. upload_csv keep_nan_env 100 (upload_of ''empty.csv'' df_empty) pumps_store
        = (Response (DatasetData d items) 201, s') \<and>
      total_count d = 0 \<and> avg_flowrate d = NaN \<and> avg_pressure d = NaN \<and>
      avg_temperature d = NaN \<and> equipment_types d = [])"
  using upload_csv_no_rows [of "\<lparr>file_name = ''empty.csv'', read_csv = Inr df_empty\<rparr>" df_empty sqlite_env 100 pumps_store]
    upload_csv_no_rows [of "\<lparr>file_name = ''empty.csv'', read_csv = Inr df_empty\<rparr>" df_empty keep_nan_env 100 pumps_store]
  by (simp add: upload_of_def endswith_def required_columns_def df_empty_def sqlite_env_def
      keep_nan_env_def)

section \<open>Retention of the five most recent datasets\<close>

lemma fold_delete_datasets:
  "datasets (fold delete xs s) = filter (\<lambda>d. ds_id d \<notin> ds_id ` set xs) (datasets s)"
proof (induction xs arbitrary: s)
  case Nil
  then show ?case by simp
next
  case (Cons x xs)
  have "datasets (fold delete (x # xs) s) = datasets (fold delete xs (delete x s))"
    by simp
  also have "\<dots> = filter (\<lambda>d. ds_id d \<notin> ds_id ` set xs) (datasets (delete x s))"
    by (rule Cons.IH)
  also have "\<dots> = filter (\<lambda>d. ds_id d \<notin> ds_id ` set (x # xs)) (datasets s)"
    by (auto simp: delete_def intro: filter_cong)
  finally show ?case .
qed

lemma fold_delete_equipment:
  "equipment_rows (fold delete xs s) = filter (\<lambda>e. dataset_id e \<notin> ds_id ` set xs) (equipment_rows s)"
proof (induction xs arbitrary: s)
  case Nil
  then show ?case by simp
next
  case (Cons x xs)
  have "equipment_rows (fold delete (x # xs) s) = equipment_rows (fold delete xs (delete x s))"
    by simp
  also have "\<dots> = filter (\<lambda>e. dataset_id e \<notin> ds_id ` set xs) (equipment_rows (delete x s))"
    by (rule Cons.IH)
  also have "\<dots> = filter (\<lambda>e. dataset_id e \<notin> ds_id ` set (x # xs)) (equipment_rows s)"
    by (auto simp: delete_def intro: filter_cong)
  finally show ?case .
qed

lemma fold_delete_next:
  "next_dataset_id (fold delete xs s) = next_dataset_id s"
  by (induction xs arbitrary: s) (simp_all add: delete_def)

lemma maintain_last_5_fold: "maintain_last_5 s = fold delete (drop 5 (objects_all s)) s"
  by (simp add: maintain_last_5_def Let_def)

lemma filter_not_dropped:
  assumes "distinct (map g ys)"
  shows "filter (\<lambda>d. g d \<notin> g ` set (drop n ys)) ys = take n ys"
proof -
  have "distinct (map g (take n ys @ drop n ys))"
    using assms by simp
  then have disj: "g ` set (take n ys) \<inter> g ` set (drop n ys) = {}"
    by (simp only: map_append distinct_append set_map)
  have "filter (\<lambda>d. g d \<notin> g ` set (drop n ys)) (take n ys) = take n ys"
    using disj by (auto simp: filter_id_conv)
  moreover have "filter (\<lambda>d. g d \<notin> g ` set (drop n ys)) (drop n ys) = []"
    by (auto simp: filter_empty_conv)
  ultimately have "filter (\<lambda>d. g d \<notin> g ` set (drop n ys)) (take n ys @ drop n ys) = take n ys"
    by (simp only: filter_append append_Nil2)
  then show ?thesis by simp
qed

lemma distinct_ids_sorted:
  "distinct (map ds_id (order_by_uploaded_at_desc ds)) = distinct (map ds_id ds)"
proof -
  have "mset (map ds_id (order_by_uploaded_at_desc ds)) = mset (map ds_id ds)"
    unfolding order_by_uploaded_at_desc_def by (rule mset_map_sort_key)
  then show ?thesis by (rule mset_eq_imp_distinct_iff)
qed

lemma objects_all_maintain_last_5:
  assumes "distinct (map ds_id (datasets s))"
  shows "objects_all (maintain_last_5 s) = take 5 (objects_all s)"
proof -
  let ?ys = "objects_all s"
  have "objects_all (maintain_last_5 s)
      = order_by_uploaded_at_desc (filter (\<lambda>d. ds_id d \<notin> ds_id ` set (drop 5 ?ys)) (datasets s))"
    by (simp add: objects_all_def maintain_last_5_fold fold_delete_datasets)
  also have "\<dots> = filter (\<lambda>d. ds_id d \<notin> ds_id ` set (drop 5 ?ys)) ?ys"
    by (simp add: objects_all_def order_by_uploaded_at_desc_def filter_sort)
  also have "\<dots> = take 5 ?ys"
    using assms by (intro filter_not_dropped) (simp add: objects_all_def distinct_ids_sorted)
  finally show ?thesis .
qed

lemma wf_with_dataset:
  assumes "wf_store s" and "ds_id d = next_dataset_id s"
  shows "distinct (map ds_id (datasets (with_dataset d s)))"
  using assms by (auto simp: wf_store_def with_dataset_def list_all_iff)

lemma datasets_with_equipment [simp]: "datasets (with_equipment objs s) = datasets s"
  by (simp add: with_equipment_def)

lemma datasets_with_dataset [simp]: "datasets (with_dataset d s) = datasets s @ [d]"
  by (simp add: with_dataset_def)

lemma sorted_objects_all: "sorted (map (\<lambda>d. - uploaded_at d) (order_by_uploaded_at_desc ds))"
  by (simp add: order_by_uploaded_at_desc_def)

lemma length_objects_all: "length (objects_all s) = length (datasets s)"
  by (simp add: objects_all_def order_by_uploaded_at_desc_def)

lemma set_objects_all: "set (objects_all s) = set (datasets s)"
  by (simp add: objects_all_def order_by_uploaded_at_desc_def)

text \<open>
  C2. After every successful upload into a well-formed store, the datasets in the store
  are the first five of all datasets (the stored ones and the new one) in the order of
  descending upload time: at most five, exactly five when there were more, and every
  dataset that was deleted is at most as recent as every dataset that was kept.
  \<^verbatim>\<open>history_list\<close> returns these datasets, most recent first.
\<close>

theorem upload_csv_keeps_five:
  assumes "wf_store s" and "upload_csv env now req s = (Response b 201, s')"
  shows "\<exists>d items. b = DatasetData d items \<and>
     objects_all s' = take 5 (order_by_uploaded_at_desc (datasets s @ [d])) \<and>
     length (datasets s') = min 5 (Suc (length (datasets s))) \<and>
     length (datasets s') \<le> 5 \<and>
     history_list s' = (Response (SummaryList (objects_all s')) 200, s') \<and>
     sorted (map (\<lambda>d. - uploaded_at d) (objects_all s')) \<and>
     (\<forall>x \<in> set (datasets s @ [d]). x \<notin> set (datasets s') \<longrightarrow>
        (\<forall>y \<in> set (datasets s'). uploaded_at x \<le> uploaded_at y))"
proof -
  from assms(2) obtain f df af ap atm where
    s': "s' = maintain_last_5 (with_equipment
            (map (row_object env (columns df) (new_dataset env now f df s af ap atm)) (rows df))
            (with_dataset (new_dataset env now f df s af ap atm) s))"
    and b: "b = serialize s' (new_dataset env now f df s af ap atm)"
    by (rule upload_csv_success) simp
  let ?d = "new_dataset env now f df s af ap atm"
  let ?s2 = "with_equipment (map (row_object env (columns df) ?d) (rows df)) (with_dataset ?d s)"
  let ?ys = "order_by_uploaded_at_desc (datasets s @ [?d])"
  have dist: "distinct (map ds_id (datasets ?s2))"
    using wf_with_dataset [OF assms(1), of ?d] by (simp add: new_dataset_def)
  have all': "objects_all s' = take 5 ?ys"
    unfolding s' using objects_all_maintain_last_5 [OF dist] by (simp add: objects_all_def)
  have len: "length (datasets s') = min 5 (Suc (length (datasets s)))"
    using arg_cong [OF all', of length]
    by (simp add: length_objects_all order_by_uploaded_at_desc_def min.commute)
  have hist: "history_list s' = (Response (SummaryList (objects_all s')) 200, s')"
    unfolding history_list_def objects_all_def [symmetric] all' by simp
  have srt: "sorted (map (\<lambda>d. - uploaded_at d) (objects_all s'))"
    unfolding all' using sorted_objects_all [of "datasets s @ [?d]"]
    by (simp add: take_map [symmetric] sorted_wrt_take)
  have old: "uploaded_at x \<le> uploaded_at y"
    if x: "x \<in> set (datasets s @ [?d])" "x \<notin> set (datasets s')" and y: "y \<in> set (datasets s')" for x y
  proof -
    have kept: "set (datasets s') = set (take 5 ?ys)"
      using all' set_objects_all [of s'] by simp
    have "x \<in> set ?ys"
      using x(1) by (simp add: order_by_uploaded_at_desc_def)
    then have "x \<in> set (take 5 ?ys) \<union> set (drop 5 ?ys)"
      by (metis append_take_drop_id set_append)
    with x(2) kept have xd: "x \<in> set (drop 5 ?ys)" by simp
    from y kept have yt: "y \<in> set (take 5 ?ys)" by simp
    have "sorted (map (\<lambda>d. - uploaded_at d) (take 5 ?ys @ drop 5 ?ys))"
      using sorted_objects_all [of "datasets s @ [?d]"] by simp
    then have "- uploaded_at y \<le> - uploaded_at x"
      using xd yt by (simp only: map_append sorted_append set_map) blast
    then show ?thesis by simp
  qed
  show ?thesis
    using b all' len hist srt old by (simp add: serialize_def)
qed

lemma wf_five_store: "wf_store five_store"
  by (simp add: wf_store_def five_store_def old_dataset_def)

lemma upload_sixth:
  "upload_csv sqlite_env 100 (upload_of ''pumps.csv'' df_pumps) five_store
     = (Response (DatasetData sixth_dataset sixth_records) 201, after_sixth)"
  by (simp add: upload_defs df_pumps_def pumps_dataset_def pumps_records_def five_store_def
      sixth_dataset_def sixth_records_def after_sixth_def old_dataset_def delete_def)

theorem upload_csv_keeps_five_witness:
  "objects_all after_sixth =
     [sixth_dataset, old_dataset 5 50, old_dataset 4 40, old_dataset 3 30, old_dataset 2 20] \<and>
   length (datasets after_sixth) = 5 \<and>
   history_list after_sixth = (Response (SummaryList (objects_all after_sixth)) 200, after_sixth) \<and>
   old_dataset 1 10 \<notin> set (datasets after_sixth)"
  using upload_csv_keeps_five [OF wf_five_store upload_sixth]
  by (simp add: five_store_def after_sixth_def sixth_dataset_def pumps_dataset_def old_dataset_def
      order_by_uploaded_at_desc_def)

section \<open>Atomicity of an upload\<close>


lemma upload_csv_failure:
  assumes "upload_csv env now req s = (Response b st, s')" and "st \<noteq> 201"
  shows "s' = s \<or>
    records_rejected env req \<and> (\<exists>d. ds_id d = next_dataset_id s \<and> s' = with_dataset d s)"
proof (cases req)
  case None
  with assms show ?thesis by (auto simp: upload_csv_def)
next
  case (Some f)
  show ?thesis
  proof (cases "endswith (file_name f) ''.csv''")
    case False
    with Some assms show ?thesis by (auto simp: upload_csv_def)
  next
    case ends: True
    show ?thesis
    proof (cases "read_csv f")
      case (Inl e)
      with Some ends assms show ?thesis by (auto simp: upload_csv_def process_csv_def)
    next
      case (Inr df)
      show ?thesis
      proof (cases "list_all (\<lambda>c. c \<in> set (columns df)) required_columns")
        case False
        with Some ends Inr assms show ?thesis by (auto simp: upload_csv_def process_csv_def)
      next
        case cols: True
        show ?thesis
        proof (cases "mean env (column df ''Flowrate'')")
          case (Inl e)
          with Some ends Inr cols assms show ?thesis by (auto simp: upload_csv_def process_csv_def)
        next
          case mf: (Inr af)
          show ?thesis
          proof (cases "mean env (column df ''Pressure'')")
            case (Inl e)
            with Some ends Inr cols mf assms show ?thesis by (auto simp: upload_csv_def process_csv_def)
          next
            case mp: (Inr ap)
            show ?thesis
            proof (cases "mean env (column df ''Temperature'')")
              case (Inl e)
              with Some ends Inr cols mf mp assms show ?thesis
                by (auto simp: upload_csv_def process_csv_def)
            next
              case mt: (Inr atm)
              note pc = process_csv_numeric [OF Inr cols mf mp mt, of now s]
              let ?d = "new_dataset env now f df s af ap atm"
              have nan: "list_ex (\<lambda>c. c = Flt NaN)
                  (column df ''Flowrate'' @ column df ''Pressure'' @ column df ''Temperature'')"
                if "list_ex has_nan (map (row_object env (columns df) ?d) (rows df))"
              proof -
                from that obtain row where row: "row \<in> set (rows df)"
                  and "has_nan (row_object env (columns df) ?d row)"
                  by (auto simp: list_ex_iff)
                then obtain c where c: "c \<in> {''Flowrate'', ''Pressure'', ''Temperature''}"
                  and fl: "the_float (getitem (columns df) row c) = NaN"
                  by (auto simp: has_nan_def row_object_def)
                from c mf mp mt have "\<not> list_ex is_Str (column df c)"
                  by (auto dest: mean_Inr_no_Str)
                with row have "\<not> is_Str (getitem (columns df) row c)"
                  by (auto simp: list_ex_iff column_def)
                with fl have "getitem (columns df) row c = Flt NaN"
                  by (cases "getitem (columns df) row c") auto
                with row have "Flt NaN \<in> set (column df c)"
                  by (force simp: column_def)
                with c show ?thesis by (auto simp: list_ex_iff)
              qed
              have "ds_id ?d = next_dataset_id s"
                by (simp add: new_dataset_def)
              with assms Some ends Inr nan show ?thesis
                by (auto simp: upload_csv_def pc Let_def records_rejected_def split: if_splits)
            qed
          qed
        qed
      qed
    qed
  qed
qed

lemma records_of_new:
  assumes "wf_store s" and "ds_id d = next_dataset_id s"
    and "list_all (\<lambda>e. dataset_id e = ds_id d) objs"
  shows "length (filter (\<lambda>e. dataset_id e = ds_id d)
           (equipment_rows (with_equipment objs (with_dataset d s)))) = length objs"
proof -
  have old: "filter (\<lambda>e. dataset_id e = ds_id d) (equipment_rows s) = []"
    using assms(1,2) by (auto simp: wf_store_def list_all_iff filter_empty_conv)
  let ?new = "map (\<lambda>(i, e). e\<lparr>eq_id := Some i\<rparr>)
      (zip [next_equipment_id s ..< next_equipment_id s + length objs] objs)"
  have "list_all (\<lambda>e. dataset_id e = ds_id d) ?new"
    using assms(3) by (auto simp: list_all_iff dest: set_zip_rightD)
  then have "filter (\<lambda>e. dataset_id e = ds_id d) ?new = ?new"
    by (simp add: list_all_iff filter_id_conv)
  with old show ?thesis
    by (simp add: with_equipment_def with_dataset_def)
qed



section \<open>Invariants of the store\<close>

text \<open>
  Every upload keeps the store well-formed, and every successful upload keeps the
  records of each stored dataset as many as its \<^verbatim>\<open>total_count\<close>. Both hold of the empty
  store.
\<close>

lemma wf_empty_store: "wf_store empty_store"
  by (simp add: wf_store_def empty_store_def)

lemma wf_store_with_dataset:
  assumes "wf_store s" and "ds_id d = next_dataset_id s"
  shows "wf_store (with_dataset d s)"
  using assms by (auto simp: wf_store_def with_dataset_def list_all_iff less_Suc_eq)

lemma wf_store_with_equipment:
  assumes "wf_store s" and "list_all (\<lambda>e. dataset_id e < next_dataset_id s) objs"
  shows "wf_store (with_equipment objs s)"
  using assms by (auto simp: wf_store_def with_equipment_def list_all_iff dest: set_zip_rightD)

lemma wf_store_maintain_last_5:
  assumes "wf_store s"
  shows "wf_store (maintain_last_5 s)"
  using assms
  by (auto simp: wf_store_def maintain_last_5_fold fold_delete_datasets fold_delete_equipment
      fold_delete_next list_all_iff distinct_map_filter)

lemma wf_store_upload_csv:
  assumes "wf_store s"
  shows "wf_store (snd (upload_csv env now req s))"
proof -
  obtain b st s' where up: "upload_csv env now req s = (Response b st, s')"
    by (metis response.exhaust surj_pair)
  show ?thesis
  proof (cases "st = 201")
    case True
    then have "st = 201 \<or> (\<exists>d items. b = DatasetData d items)"
      by simp
    with up obtain f df af ap atm where
      s': "s' = maintain_last_5 (with_equipment
            (map (row_object env (columns df) (new_dataset env now f df s af ap atm)) (rows df))
            (with_dataset (new_dataset env now f df s af ap atm) s))"
      by (rule upload_csv_success)
    let ?d = "new_dataset env now f df s af ap atm"
    have "wf_store (with_dataset ?d s)"
      using assms by (rule wf_store_with_dataset) (simp add: new_dataset_def)
    then have "wf_store (with_equipment (map (row_object env (columns df) ?d) (rows df)) (with_dataset ?d s))"
      by (rule wf_store_with_equipment)
        (simp add: list_all_iff row_object_def new_dataset_def with_dataset_def)
    then show ?thesis
      unfolding up s' snd_conv by (rule wf_store_maintain_last_5)
  next
    case False
    from upload_csv_failure [OF up False] assms show ?thesis
      unfolding up snd_conv by (auto intro: wf_store_with_dataset)
  qed
qed

lemma records_of_fold_delete:
  assumes "ds_id d \<notin> ds_id ` set xs"
  shows "records_of (fold delete xs s) d = records_of s d"
proof -
  have "filter (\<lambda>e. dataset_id e = ds_id d) (filter (\<lambda>e. dataset_id e \<notin> ds_id ` set xs) rs)
      = filter (\<lambda>e. dataset_id e = ds_id d) rs" for rs
    using assms by (induction rs) auto
  then show ?thesis
    by (simp only: records_of_def fold_delete_equipment)
qed

lemma records_match_maintain_last_5:
  assumes "records_match s"
  shows "records_match (maintain_last_5 s)"
  using assms
  by (auto simp: records_match_def maintain_last_5_fold fold_delete_datasets list_all_iff
      records_of_fold_delete)

lemma records_of_old:
  assumes "wf_store s" and "ds_id d = next_dataset_id s"
    and "list_all (\<lambda>e. dataset_id e = ds_id d) objs" and "d' \<in> set (datasets s)"
  shows "records_of (with_equipment objs (with_dataset d s)) d' = records_of s d'"
proof -
  have "ds_id d' \<noteq> ds_id d"
    using assms(1,2,4) by (auto simp: wf_store_def list_all_iff)
  then have "filter (\<lambda>e. dataset_id e = ds_id d')
      (map (\<lambda>(i, e). e\<lparr>eq_id := Some i\<rparr>)
        (zip [next_equipment_id s ..< next_equipment_id s + length objs] objs)) = []"
    using assms(3) by (auto simp: filter_empty_conv list_all_iff dest: set_zip_rightD)
  then show ?thesis
    by (simp add: records_of_def with_equipment_def with_dataset_def)
qed

lemma records_match_upload_csv:
  assumes "wf_store s" and "records_match s"
    and "upload_csv env now req s = (Response b 201, s')"
  shows "records_match s'"
proof -
  from assms(3) obtain f df af ap atm where
    s': "s' = maintain_last_5 (with_equipment
          (map (row_object env (columns df) (new_dataset env now f df s af ap atm)) (rows df))
          (with_dataset (new_dataset env now f df s af ap atm) s))"
    by (rule upload_csv_success) simp
  let ?d = "new_dataset env now f df s af ap atm"
  let ?objs = "map (row_object env (columns df) ?d) (rows df)"
  have id: "ds_id ?d = next_dataset_id s"
    by (simp add: new_dataset_def)
  have objs: "list_all (\<lambda>e. dataset_id e = ds_id ?d) ?objs"
    by (simp add: list_all_iff row_object_def)
  have new: "length (records_of (with_equipment ?objs (with_dataset ?d s)) ?d) = total_count ?d"
    using records_of_new [OF assms(1) id objs] by (simp add: records_of_def new_dataset_def)
  have old: "length (records_of (with_equipment ?objs (with_dataset ?d s)) d') = total_count d'"
    if "d' \<in> set (datasets s)" for d'
    using records_of_old [OF assms(1) id objs that] assms(2) that
    by (simp add: records_match_def list_all_iff)
  have "records_match (with_equipment ?objs (with_dataset ?d s))"
    using new old by (auto simp: records_match_def list_all_iff)
  then show ?thesis
    unfolding s' by (rule records_match_maintain_last_5)
qed

lemma records_match_empty_store: "records_match empty_store"
  by (simp add: records_match_def empty_store_def)

section \<open>The report\<close>








lemma round_half_even_nearest: "\<bar>of_int (round_half_even q) - q\<bar> \<le> 1 / 2"
proof -
  have "of_int \<lfloor>q\<rfloor> \<le> q" and "q < of_int \<lfloor>q\<rfloor> + 1"
    by linarith+
  then show ?thesis
    by (auto simp: round_half_even_def Let_def abs_le_iff)
qed








text \<open>
  C9. Generating a report returns the store it was given: the datasets, their
  aggregates and the records are the same before and after, whether or not the dataset
  exists.
\<close>

theorem generate_pdf_reads_only:
  "snd (generate_pdf env pk s) = s \<and>
   datasets (snd (generate_pdf env pk s)) = datasets s \<and>
   equipment_rows (snd (generate_pdf env pk s)) = equipment_rows s"
  by (simp add: generate_pdf_def split: option.split)

section \<open>The order in which records are read back\<close>

lemma sorted_equipment_items: "sorted (map equipment_name (equipment_items s i))"
  by (simp add: equipment_items_def)

lemma mset_equipment_items: "mset (equipment_items s (ds_id d)) = mset (records_of s d)"
  by (simp add: equipment_items_def records_of_def)

text \<open>
  C10. For a dataset in the store, get by id and the report read its records in
  ascending order of \<^verbatim>\<open>equipment_name\<close> (compared character by character), the same records
  as are stored for it; the report lists the first twenty of them, so every listed name
  is at most every name that is left out. In the witness the file, and the table, hold
  Valve1 before Pump1, and both readers return Pump1 first.
\<close>

theorem equipment_items_by_name:
  assumes "get_object s pk = Some d"
  shows "\<exists>items r. retrieve pk s = (Response (DatasetData d items) 200, s) \<and>
     generate_pdf env pk s = (Response (PdfData r) 200, s) \<and>
     sorted (map equipment_name items) \<and>
     mset items = mset (records_of s d) \<and>
     tl (equipment_data r) = map equipment_row (take 20 items) \<and>
     (\<forall>x \<in> set (take 20 items). \<forall>y \<in> set (drop 20 items). equipment_name x \<le> equipment_name y)"
proof -
  let ?items = "equipment_items s (ds_id d)"
  have "sorted (map equipment_name (take 20 ?items @ drop 20 ?items))"
    using sorted_equipment_items [of s "ds_id d"] by simp
  then have "\<forall>x \<in> set (take 20 ?items). \<forall>y \<in> set (drop 20 ?items). equipment_name x \<le> equipment_name y"
    by (simp only: map_append sorted_append set_map) blast
  then show ?thesis
    using assms sorted_equipment_items [of s "ds_id d"] mset_equipment_items [of s d]
    by (simp add: retrieve_def generate_pdf_def serialize_def)
qed

lemma upload_unsorted:
  "upload_csv sqlite_env 100 (upload_of ''pumps.csv'' df_unsorted) empty_store
     = (Response (DatasetData unsorted_dataset [pump_record, valve_record]) 201, unsorted_store)"
  by (simp add: upload_defs df_unsorted_def unsorted_dataset_def pumps_dataset_def pump_record_def
      valve_record_def unsorted_store_def)

theorem equipment_items_by_name_witness:
  "map equipment_name (equipment_rows unsorted_store) = [''Valve1'', ''Pump1''] \<and>
   retrieve 1 unsorted_store
     = (Response (DatasetData unsorted_dataset [pump_record, valve_record]) 200, unsorted_store) \<and>
   (\<exists>r. generate_pdf sqlite_env 1 unsorted_store = (Response (PdfData r) 200, unsorted_store) \<and>
      map hd (tl (equipment_data r)) = [''Pump1'', ''Valve1''])"
proof -
  have got: "get_object unsorted_store 1 = Some unsorted_dataset"
    by (simp add: get_object_def unsorted_store_def unsorted_dataset_def pumps_dataset_def)
  have id: "ds_id unsorted_dataset = 1"
    by (simp add: unsorted_dataset_def pumps_dataset_def)
  have sorted_items: "equipment_items unsorted_store 1 = [pump_record, valve_record]"
    by (simp add: equipment_items_def unsorted_store_def pump_record_def valve_record_def)
  have retr: "retrieve 1 unsorted_store
     = (Response (DatasetData unsorted_dataset [pump_record, valve_record]) 200, unsorted_store)"
    by (simp only: retrieve_def got option.case serialize_def id sorted_items)
  from equipment_items_by_name [OF got, of sqlite_env] obtain items r
    where r1: "retrieve 1 unsorted_store = (Response (DatasetData unsorted_dataset items) 200, unsorted_store)"
      and r2: "generate_pdf sqlite_env 1 unsorted_store = (Response (PdfData r) 200, unsorted_store)"
      and r3: "tl (equipment_data r) = map equipment_row (take 20 items)"
    by blast
  from r1 retr have "items = [pump_record, valve_record]"
    by simp
  with r3 have "map hd (tl (equipment_data r)) = [''Pump1'', ''Valve1'']"
    by (simp add: equipment_row_def pump_record_def valve_record_def)
  with r2 have pdf: "\<exists>r. generate_pdf sqlite_env 1 unsorted_store = (Response (PdfData r) 200, unsorted_store) \<and>
      map hd (tl (equipment_data r)) = [''Pump1'', ''Valve1'']"
    by (intro exI [of _ r] conjI)
  have "map equipment_name (equipment_rows unsorted_store) = [''Valve1'', ''Pump1'']"
    by (simp add: unsorted_store_def pump_record_def valve_record_def)
  with retr pdf show ?thesis
    by (intro conjI)
qed

end
